theory Spec2Isabelle
  imports Main
begin

section \<open>Page Store\<close>

text \<open>
  The table \<open>scraped_pages\<close> created by \<open>init_db\<close> (db.py):
  \<^verbatim>\<open>
  CREATE TABLE IF NOT EXISTS scraped_pages (
      id INTEGER PRIMARY KEY AUTOINCREMENT,
      url TEXT UNIQUE,
      title TEXT,
      content TEXT,
      fetched_at DATETIME DEFAULT CURRENT_TIMESTAMP)
  \<close>
  A row is a record; \<open>title\<close> and \<open>content\<close> are nullable columns, which the readers
  of the table guard with \<open>or ""\<close>. Timestamps are natural numbers (seconds). The table is
  the list of its rows in insertion order together with the AUTOINCREMENT counter
  (SQLite's \<open>sqlite_sequence\<close> entry for the table).
\<close>

record page_row =
  pg_id :: nat
  pg_url :: string
  pg_title :: "string option"
  pg_content :: "string option"
  pg_fetched_at :: nat

record page_store =
  rows :: "page_row list"
  seq :: nat

definition empty_store :: page_store where
  "empty_store = \<lparr>rows = [], seq = 0\<rparr>"

text \<open>
  \<open>upsert_page\<close> (app.py):
  \<^verbatim>\<open>
  INSERT INTO scraped_pages (url, title, content, fetched_at)
  VALUES (?, ?, ?, CURRENT_TIMESTAMP)
  ON CONFLICT(url) DO UPDATE SET
      title=excluded.title, content=excluded.content, fetched_at=CURRENT_TIMESTAMP
  \<close>
  \<open>now\<close> is the value of \<open>CURRENT_TIMESTAMP\<close> when the statement runs. A row whose url
  equals the new one is the conflict of the UNIQUE constraint: it is updated in place.
  Otherwise a row is appended with the next id. SQLite allocates the id of the row to be
  inserted before it meets the conflict, so the AUTOINCREMENT counter advances in both
  cases: a conflicting upsert uses up an id without adding a row.
\<close>

definition conflict_update :: "nat \<Rightarrow> string \<Rightarrow> string \<Rightarrow> string \<Rightarrow> page_row \<Rightarrow> page_row" where
  "conflict_update now u t c r =
     (if pg_url r = u
      then r\<lparr>pg_title := Some t, pg_content := Some c, pg_fetched_at := now\<rparr>
      else r)"

definition upsert_page :: "page_store \<Rightarrow> nat \<Rightarrow> string \<Rightarrow> string \<Rightarrow> string \<Rightarrow> page_store" where
  "upsert_page db now u t c =
     (if u \<in> set (map pg_url (rows db))
      then db\<lparr>rows := map (conflict_update now u t c) (rows db), seq := Suc (seq db)\<rparr>
      else db\<lparr>rows := rows db @
                 [\<lparr>pg_id = Suc (seq db), pg_url = u, pg_title = Some t,
                   pg_content = Some c, pg_fetched_at = now\<rparr>],
              seq := Suc (seq db)\<rparr>)"

text \<open>A history of the table: the upserts applied to the empty table, oldest first.
  Each upsert is (timestamp, url, title, content).\<close>

fun run_upserts :: "page_store \<Rightarrow> (nat \<times> string \<times> string \<times> string) list \<Rightarrow> page_store" where
  "run_upserts db [] = db"
| "run_upserts db ((now, u, t, c) # ops) = run_upserts (upsert_page db now u t c) ops"


section \<open>Text utilities\<close>

text \<open>
  A Python \<open>str\<close> is modelled as a \<open>string\<close>, each \<open>char\<close> read as one code point
  below 256. \<open>is_space\<close> is \<open>str.isspace\<close> on these code points, which is also what
  \<open>\s\<close> matches in \<open>re\<close> and what \<open>str.strip()\<close> removes: 9 to 13, 28 to 32, 133, 160.
\<close>

definition is_space :: "char \<Rightarrow> bool" where
  "is_space c = (of_char c \<in> {9::nat, 10, 11, 12, 13, 28, 29, 30, 31, 32, 133, 160})"

text \<open>\<open>s.strip()\<close>\<close>

definition strip :: "string \<Rightarrow> string" where
  "strip s = rev (dropWhile is_space (rev (dropWhile is_space s)))"

text \<open>\<open>re.sub(r"\s+", " ", s)\<close>: every maximal run of whitespace becomes one space.\<close>

function collapse_ws :: "string \<Rightarrow> string" where
  "collapse_ws [] = []"
| "collapse_ws (c # cs) =
     (if is_space c then CHR '' '' # collapse_ws (dropWhile is_space cs)
      else c # collapse_ws cs)"
  by pat_completeness auto
termination
  by (relation "measure length") (auto simp: le_imp_less_Suc length_dropWhile_le)

text \<open>
  \<open>html.unescape\<close> of the standard library:
  \<^verbatim>\<open>
  def unescape(s):
      if '&' not in s:
          return s
      return _charref.sub(_replace_charref, s)
  \<close>
  The substitution of character references against the HTML5 entity table is the
  parameter \<open>charref\<close>; a string without an ampersand never reaches it.
\<close>

definition unescape :: "(string \<Rightarrow> string) \<Rightarrow> string \<Rightarrow> string" where
  "unescape charref s = (if CHR ''&'' \<notin> set s then s else charref s)"

text \<open>
  \<open>clean_text\<close> (app.py):
  \<^verbatim>\<open>
  if not s: return ""
  s = html.unescape(s)
  s = re.sub(r"\s+", " ", s).strip()
  return s
  \<close>
\<close>

definition clean_text :: "(string \<Rightarrow> string) \<Rightarrow> string \<Rightarrow> string" where
  "clean_text charref s =
     (if s = [] then [] else strip (collapse_ws (unescape charref s)))"

text \<open>\<open>x or ""\<close> on a nullable text column.\<close>

fun or_empty :: "string option \<Rightarrow> string" where
  "or_empty None = []"
| "or_empty (Some s) = s"

section \<open>Search index\<close>

text \<open>
  The module globals \<open>_tfidf_vectorizer\<close>, \<open>_tfidf_matrix\<close>, \<open>_tfidf_rows\<close> and
  \<open>_last_index_count\<close> form the state of the index. \<open>TfidfVectorizer(...)\<close> constructs an
  unfitted vectorizer; \<open>fit_transform\<close> fits it. The matrix is the list of its rows, one
  document vector per document.
\<close>

datatype 'v vectorizer = Unfitted | Fitted 'v

record doc_row =
  d_url :: string
  d_title :: "string option"
  d_content :: "string option"

record ('v, 'd) index_state =
  tfidf_vectorizer :: "'v vectorizer option"
  tfidf_matrix :: "'d list option"
  tfidf_rows :: "doc_row list"
  last_index_count :: nat

definition initial_index :: "('v, 'd) index_state" where
  "initial_index =
     \<lparr>tfidf_vectorizer = None, tfidf_matrix = None, tfidf_rows = [], last_index_count = 0\<rparr>"

text \<open>
  scikit-learn and numpy are outside the repository; what the code uses of them is a
  parameter:
  \<^item> \<open>fit docs\<close>: the vocabulary and weights \<open>fit_transform\<close> learns from the corpus, or
    \<open>None\<close> when it raises (\<open>ValueError\<close>: empty vocabulary);
  \<^item> \<open>transform v doc\<close>: the vector of one document under a fitted vectorizer;
    \<open>fit_transform(docs)\<close> returns the matrix whose i-th row is the vector of \<open>docs[i]\<close>;
  \<^item> \<open>cosine q d\<close>: the similarity of a query vector and a document vector;
    \<open>cosine_similarity(q_vec, matrix).ravel()\<close> is the list of the similarities to the
    rows of the matrix, in row order.
  Scores are of any linearly ordered type.
\<close>

record ('v, 'd, 's) sklearn =
  fit :: "string list \<Rightarrow> 'v option"
  transform :: "'v \<Rightarrow> string \<Rightarrow> 'd"
  cosine :: "'d \<Rightarrow> 'd \<Rightarrow> 's"

datatype error = ValueError | NotFittedError | IndexError

definition doc_of :: "page_row \<Rightarrow> doc_row" where
  "doc_of r = \<lparr>d_url = pg_url r, d_title = pg_title r, d_content = pg_content r\<rparr>"

definition doc_text :: "(string \<Rightarrow> string) \<Rightarrow> page_row \<Rightarrow> string" where
  "doc_text charref r = clean_text charref (or_empty (pg_title r) @ '' '' @ or_empty (pg_content r))"

text \<open>
  \<open>build_tfidf_index\<close> (app.py). The globals are assigned in the order of the source:
  \<open>_tfidf_rows\<close> first (emptied, then filled in the loop over the rows), then, for a
  non-empty corpus, \<open>_tfidf_vectorizer\<close> (a new unfitted vectorizer), then
  \<open>_tfidf_matrix\<close> from \<open>fit_transform\<close>, then \<open>_last_index_count\<close>. An exception of
  \<open>fit_transform\<close> leaves the function there. The result is the exception or the
  number of indexed pages, with the state of the globals afterwards.
\<close>

definition build_tfidf_index ::
  "('v, 'd, 's) sklearn \<Rightarrow> (string \<Rightarrow> string) \<Rightarrow> page_store \<Rightarrow> ('v, 'd) index_state \<Rightarrow>
     (error + nat) \<times> ('v, 'd) index_state" where
  "build_tfidf_index L charref db st =
     (let docs = map (doc_text charref) (rows db);
          st1 = st\<lparr>tfidf_rows := map doc_of (rows db)\<rparr>
      in if docs = []
         then (Inr 0, st1\<lparr>tfidf_vectorizer := None, tfidf_matrix := None, last_index_count := 0\<rparr>)
         else let st2 = st1\<lparr>tfidf_vectorizer := Some Unfitted\<rparr>
              in case fit L docs of
                   None \<Rightarrow> (Inl ValueError, st2)
                 | Some v \<Rightarrow>
                     (Inr (length docs),
                      st2\<lparr>tfidf_vectorizer := Some (Fitted v),
                          tfidf_matrix := Some (map (transform L v) docs),
                          last_index_count := length docs\<rparr>))"

text \<open>\<open>ensure_index_up_to_date\<close> (app.py): \<open>SELECT COUNT(*)\<close> is the number of rows.\<close>

definition ensure_index_up_to_date ::
  "('v, 'd, 's) sklearn \<Rightarrow> (string \<Rightarrow> string) \<Rightarrow> page_store \<Rightarrow> ('v, 'd) index_state \<Rightarrow>
     (error + nat) \<times> ('v, 'd) index_state" where
  "ensure_index_up_to_date L charref db st =
     (let n = length (rows db)
      in if n \<noteq> last_index_count st \<or> tfidf_vectorizer st = None \<or> tfidf_matrix st = None
         then build_tfidf_index L charref db st
         else (Inr (last_index_count st), st))"

text \<open>
  \<open>sims.argsort()\<close>: the indices of the scores in ascending order of score. numpy does not
  fix the order of equal scores; the model sorts stably, and nothing below depends on the
  order of ties.
\<close>

definition argsort :: "('s::linorder) list \<Rightarrow> nat list" where
  "argsort sims = sort_key (\<lambda>i. sims ! i) [0..<length sims]"

text \<open>The slice \<open>xs[:n]\<close>; a negative \<open>n\<close> counts from the end.\<close>

definition slice_to :: "int \<Rightarrow> 'a list \<Rightarrow> 'a list" where
  "slice_to n xs = (if 0 \<le> n then take (nat n) xs else take (length xs - nat (- n)) xs)"

record 's result =
  r_url :: string
  r_title :: "string option"
  r_snippet :: string
  r_score :: 's

text \<open>The snippet of a row: \<open>clean_text((row["content"] or "")[:800])\<close>.\<close>

definition snippet_of :: "(string \<Rightarrow> string) \<Rightarrow> doc_row \<Rightarrow> string" where
  "snippet_of charref row = clean_text charref (take 800 (or_empty (d_content row)))"

text \<open>The loop over \<open>idxs\<close>; \<open>_tfidf_rows[i]\<close> raises \<open>IndexError\<close> out of range.\<close>

fun collect_results ::
  "(string \<Rightarrow> string) \<Rightarrow> doc_row list \<Rightarrow> 's list \<Rightarrow> nat list \<Rightarrow> error + 's result list" where
  "collect_results charref rws sims [] = Inr []"
| "collect_results charref rws sims (i # idxs) =
     (if i < length rws
      then (case collect_results charref rws sims idxs of
              Inl e \<Rightarrow> Inl e
            | Inr rs \<Rightarrow>
                Inr (\<lparr>r_url = d_url (rws ! i), r_title = d_title (rws ! i),
                      r_snippet = snippet_of charref (rws ! i), r_score = sims ! i\<rparr> # rs))
      else Inl IndexError)"

text \<open>
  \<open>retrieve_tfidf\<close> (app.py). \<open>transform\<close> on a vectorizer that was never fitted raises
  \<open>NotFittedError\<close>. An exception of \<open>ensure_index_up_to_date\<close> propagates.
\<close>

definition retrieve_tfidf ::
  "('v, 'd, 's::linorder) sklearn \<Rightarrow> (string \<Rightarrow> string) \<Rightarrow> page_store \<Rightarrow> ('v, 'd) index_state \<Rightarrow>
     string \<Rightarrow> int \<Rightarrow> (error + 's result list) \<times> ('v, 'd) index_state" where
  "retrieve_tfidf L charref db st query top_n =
     (if strip query = [] then (Inr [], st)
      else case ensure_index_up_to_date L charref db st of
             (Inl e, st') \<Rightarrow> (Inl e, st')
           | (Inr _, st') \<Rightarrow>
               (case (tfidf_vectorizer st', tfidf_matrix st') of
                  (Some vz, Some mx) \<Rightarrow>
                    if tfidf_rows st' = [] then (Inr [], st')
                    else (case vz of
                            Unfitted \<Rightarrow> (Inl NotFittedError, st')
                          | Fitted v \<Rightarrow>
                              let sims = map (cosine L (transform L v query)) mx;
                                  idxs = slice_to top_n (rev (argsort sims))
                              in (collect_results charref (tfidf_rows st') sims idxs, st'))
                | _ \<Rightarrow> (Inr [], st')))"

text \<open>
  A snapshot as a successful build leaves it: either empty, or a fitted vectorizer with
  one matrix row and one entry of the rows list per counted document.
\<close>

definition snapshot_ok :: "('v, 'd) index_state \<Rightarrow> bool" where
  "snapshot_ok st =
     (case (tfidf_vectorizer st, tfidf_matrix st) of
        (None, None) \<Rightarrow> tfidf_rows st = [] \<and> last_index_count st = 0
      | (Some (Fitted v), Some mx) \<Rightarrow>
          0 < length mx \<and> length (tfidf_rows st) = length mx \<and> last_index_count st = length mx
      | _ \<Rightarrow> False)"

text \<open>
  A small stand-in for the library, for concrete runs: the vocabulary is the list of the
  characters of the corpus (fitting an empty vocabulary raises), a document vector counts
  each of them, and the score is the dot product.
\<close>

definition toy_sklearn :: "(string, nat list, nat) sklearn" where
  "toy_sklearn =
     \<lparr>fit = (\<lambda>docs. if concat docs = [] then None else Some (remdups (concat docs))),
      transform = (\<lambda>v doc. map (count_list doc) v),
      cosine = (\<lambda>q d. sum_list (map2 (*) q d))\<rparr>"

text \<open>The character-reference table for inputs that hold no ampersand.\<close>

definition no_charref :: "string \<Rightarrow> string" where
  "no_charref s = s"

section \<open>URL policy\<close>

subsection \<open>The standard library's URL functions\<close>

text \<open>
  \<open>normalize_url\<close> and the scope check of the crawler are calls of \<open>urljoin\<close> and
  \<open>urlparse\<close> of \<open>urllib.parse\<close>. They are embedded from the library source of
  Python 3.11 (\<open>Lib/urllib/parse.py\<close>), function by function, on \<open>str\<close> arguments and
  with \<open>allow_fragments\<close> at its default. Two things of the library are not computed here:
  \<^item> \<open>_check_bracketed_host\<close>, which validates the text between the brackets of a netloc
    with the \<open>ipaddress\<close> module, is the parameter \<open>bracketed_host_ok\<close>;
  \<^item> \<open>_checknetloc\<close> rejects a netloc whose NFKC form gains one of \<open>/?#@:\<close>; no character
    below 256 has such a form, so on the strings of this model it always returns.
  A \<open>ValueError\<close> of the library is the result \<open>Inl ValueError\<close>.
\<close>

definition uses_relative :: "string list" where
  "uses_relative = ['''', ''ftp'', ''http'', ''gopher'', ''nntp'', ''imap'',
     ''wais'', ''file'', ''https'', ''shttp'', ''mms'',
     ''prospero'', ''rtsp'', ''rtsps'', ''rtspu'', ''sftp'',
     ''svn'', ''svn+ssh'', ''ws'', ''wss'']"

definition uses_netloc :: "string list" where
  "uses_netloc = ['''', ''ftp'', ''http'', ''gopher'', ''nntp'', ''telnet'',
     ''imap'', ''wais'', ''file'', ''mms'', ''https'', ''shttp'',
     ''snews'', ''prospero'', ''rtsp'', ''rtsps'', ''rtspu'', ''rsync'',
     ''svn'', ''svn+ssh'', ''sftp'', ''nfs'', ''git'', ''git+ssh'',
     ''ws'', ''wss'']"

definition uses_params :: "string list" where
  "uses_params = ['''', ''ftp'', ''hdl'', ''prospero'', ''http'', ''imap'',
     ''https'', ''shttp'', ''rtsp'', ''rtsps'', ''rtspu'', ''sip'',
     ''sips'', ''mms'', ''sftp'', ''tel'']"

definition scheme_chars :: string where
  "scheme_chars = ''abcdefghijklmnopqrstuvwxyzABCDEFGHIJKLMNOPQRSTUVWXYZ0123456789+-.''"

text \<open>\<open>_WHATWG_C0_CONTROL_OR_SPACE\<close>, \<open>_UNSAFE_URL_BYTES_TO_REMOVE\<close>,
  \<open>c.isascii() and c.isalpha()\<close>, and \<open>str.lower\<close> on the code points below 256.\<close>

definition c0_control_or_space :: "char \<Rightarrow> bool" where
  "c0_control_or_space c = (of_char c \<le> (32::nat))"

definition unsafe_url_byte :: "char \<Rightarrow> bool" where
  "unsafe_url_byte c = (of_char c \<in> {9::nat, 13, 10})"

definition ascii_alpha :: "char \<Rightarrow> bool" where
  "ascii_alpha c = (let n = of_char c :: nat in (65 \<le> n \<and> n \<le> 90) \<or> (97 \<le> n \<and> n \<le> 122))"

definition lower_char :: "char \<Rightarrow> char" where
  "lower_char c =
     (let n = of_char c :: nat
      in if (65 \<le> n \<and> n \<le> 90) \<or> (192 \<le> n \<and> n \<le> 214) \<or> (216 \<le> n \<and> n \<le> 222)
         then char_of (n + 32) else c)"

definition lower :: "string \<Rightarrow> string" where
  "lower s = map lower_char s"

text \<open>\<open>s.partition(c)\<close> without the separator: the text before the first \<open>c\<close> and the
  text after it. For a string that holds \<open>c\<close> this is also \<open>s.split(c, 1)\<close>.\<close>

definition partition_at :: "char \<Rightarrow> string \<Rightarrow> string \<times> string" where
  "partition_at c s = (takeWhile (\<lambda>x. x \<noteq> c) s, drop 1 (dropWhile (\<lambda>x. x \<noteq> c) s))"

text \<open>
  The test of \<open>urlsplit\<close> for a scheme: \<open>i = url.find(':')\<close>, \<open>i > 0\<close>, the first
  character an ASCII letter and every character of \<open>url[:i]\<close> in \<open>scheme_chars\<close>.
\<close>

definition has_scheme :: "string \<Rightarrow> bool" where
  "has_scheme url =
     (CHR '':'' \<in> set url \<and> takeWhile (\<lambda>x. x \<noteq> CHR '':'') url \<noteq> [] \<and> ascii_alpha (hd url) \<and>
      list_all (\<lambda>c. c \<in> set scheme_chars) (takeWhile (\<lambda>x. x \<noteq> CHR '':'') url))"

text \<open>\<open>_splitnetloc(url, 2)\<close>: the netloc runs from index 2 to the first of \<open>/?#\<close>.\<close>

definition netloc_delim :: "char \<Rightarrow> bool" where
  "netloc_delim c = (c \<in> set ''/?#'')"

definition splitnetloc :: "string \<Rightarrow> string \<times> string" where
  "splitnetloc url =
     (takeWhile (\<lambda>c. \<not> netloc_delim c) (drop 2 url), dropWhile (\<lambda>c. \<not> netloc_delim c) (drop 2 url))"

record split_result =
  s_scheme :: string
  s_netloc :: string
  s_path :: string
  s_query :: string
  s_fragment :: string

record parse_result =
  p_scheme :: string
  p_netloc :: string
  p_path :: string
  p_params :: string
  p_query :: string
  p_fragment :: string

text \<open>
  The bracket checks of \<open>urlsplit\<close>: one bracket without the other raises; with both,
  \<open>netloc.partition('[')[2].partition(']')[0]\<close> goes to \<open>_check_bracketed_host\<close>.
\<close>

definition netloc_brackets_ok :: "(string \<Rightarrow> bool) \<Rightarrow> string \<Rightarrow> bool" where
  "netloc_brackets_ok bracketed_host_ok netloc =
     (if (CHR ''['' \<in> set netloc \<and> CHR '']'' \<notin> set netloc) \<or>
         (CHR '']'' \<in> set netloc \<and> CHR ''['' \<notin> set netloc)
      then False
      else if CHR ''['' \<in> set netloc \<and> CHR '']'' \<in> set netloc
      then bracketed_host_ok (fst (partition_at CHR '']'' (snd (partition_at CHR ''['' netloc))))
      else True)"

text \<open>The end of \<open>urlsplit\<close>: the fragment is split off at the first \<open>#\<close>, then the
  query at the first \<open>?\<close>.\<close>

definition split_tail :: "string \<Rightarrow> string \<Rightarrow> string \<Rightarrow> split_result" where
  "split_tail scheme netloc url =
     (let (url1, fragment) = (if CHR ''#'' \<in> set url then partition_at CHR ''#'' url else (url, []));
          (url2, query) = (if CHR ''?'' \<in> set url1 then partition_at CHR ''?'' url1 else (url1, []))
      in \<lparr>s_scheme = scheme, s_netloc = netloc, s_path = url2, s_query = query,
           s_fragment = fragment\<rparr>)"

text \<open>
  \<open>urlsplit(url, scheme)\<close>: leading C0 controls and spaces are stripped from the url (both
  ends of the default scheme), tab, CR and LF are removed, the scheme is split off and
  lowered, and a url that then starts with \<open>//\<close> has a netloc.
\<close>

definition urlsplit :: "(string \<Rightarrow> bool) \<Rightarrow> string \<Rightarrow> string \<Rightarrow> error + split_result" where
  "urlsplit bracketed_host_ok url0 scheme0 =
     (let url1 = filter (\<lambda>c. \<not> unsafe_url_byte c) (dropWhile c0_control_or_space url0);
          scheme1 = filter (\<lambda>c. \<not> unsafe_url_byte c)
                      (rev (dropWhile c0_control_or_space (rev (dropWhile c0_control_or_space scheme0))));
          (scheme, url) =
            (if has_scheme url1
             then (lower (takeWhile (\<lambda>x. x \<noteq> CHR '':'') url1),
                   drop 1 (dropWhile (\<lambda>x. x \<noteq> CHR '':'') url1))
             else (scheme1, url1))
      in if take 2 url = ''//''
         then (let (netloc, rest) = splitnetloc url
               in if netloc_brackets_ok bracketed_host_ok netloc
                  then Inr (split_tail scheme netloc rest)
                  else Inl ValueError)
         else Inr (split_tail scheme [] url))"

text \<open>
  \<open>_splitparams\<close>: with a slash in the path, the parameters start at the first semicolon
  at or after the last slash (\<open>url.find(';', url.rfind('/'))\<close>), if there is one; without
  a slash, at the first semicolon. It is only called on a path that holds a semicolon.
\<close>

definition splitparams :: "string \<Rightarrow> string \<times> string" where
  "splitparams url =
     (if CHR ''/'' \<in> set url
      then (let r = length url - 1 - length (takeWhile (\<lambda>x. x \<noteq> CHR ''/'') (rev url))
            in if CHR '';'' \<in> set (drop r url)
               then (let i = r + length (takeWhile (\<lambda>x. x \<noteq> CHR '';'') (drop r url))
                     in (take i url, drop (i + 1) url))
               else (url, []))
      else partition_at CHR '';'' url)"

text \<open>\<open>urlparse(url, scheme)\<close>\<close>

definition urlparse :: "(string \<Rightarrow> bool) \<Rightarrow> string \<Rightarrow> string \<Rightarrow> error + parse_result" where
  "urlparse bracketed_host_ok url scheme =
     (case urlsplit bracketed_host_ok url scheme of
        Inl e \<Rightarrow> Inl e
      | Inr sr \<Rightarrow>
          (let (path, params) =
                 (if s_scheme sr \<in> set uses_params \<and> CHR '';'' \<in> set (s_path sr)
                  then splitparams (s_path sr) else (s_path sr, []))
           in Inr \<lparr>p_scheme = s_scheme sr, p_netloc = s_netloc sr, p_path = path, p_params = params,
                    p_query = s_query sr, p_fragment = s_fragment sr\<rparr>))"

text \<open>\<open>urlunsplit\<close> and \<open>urlunparse\<close>\<close>

definition urlunsplit :: "string \<Rightarrow> string \<Rightarrow> string \<Rightarrow> string \<Rightarrow> string \<Rightarrow> string" where
  "urlunsplit scheme netloc url0 query fragment =
     (let url1 = (if netloc \<noteq> [] \<or> (scheme \<noteq> [] \<and> scheme \<in> set uses_netloc) \<or> take 2 url0 = ''//''
                  then ''//'' @ netloc @ (if url0 \<noteq> [] \<and> take 1 url0 \<noteq> ''/'' then CHR ''/'' # url0 else url0)
                  else url0);
          url2 = (if scheme \<noteq> [] then scheme @ '':'' @ url1 else url1);
          url3 = (if query \<noteq> [] then url2 @ ''?'' @ query else url2)
      in if fragment \<noteq> [] then url3 @ ''#'' @ fragment else url3)"

definition urlunparse :: "string \<Rightarrow> string \<Rightarrow> string \<Rightarrow> string \<Rightarrow> string \<Rightarrow> string \<Rightarrow> string" where
  "urlunparse scheme netloc url params query fragment =
     urlunsplit scheme netloc (if params \<noteq> [] then url @ '';'' @ params else url) query fragment"

text \<open>\<open>s.split(c)\<close>, \<open>sep.join(xs)\<close>, and the loop of \<open>urljoin\<close> over the path segments
  (\<open>..\<close> pops, ignoring an empty stack; \<open>.\<close> is skipped).\<close>

fun split_on :: "char \<Rightarrow> string \<Rightarrow> string list" where
  "split_on c [] = [[]]"
| "split_on c (x # xs) =
     (if x = c then [] # split_on c xs
      else (case split_on c xs of [] \<Rightarrow> [[x]] | y # ys \<Rightarrow> (x # y) # ys))"

fun join_with :: "string \<Rightarrow> string list \<Rightarrow> string" where
  "join_with sep [] = []"
| "join_with sep [x] = x"
| "join_with sep (x # y # ys) = x @ sep @ join_with sep (y # ys)"

fun resolve_segments :: "string list \<Rightarrow> string list \<Rightarrow> string list" where
  "resolve_segments resolved [] = resolved"
| "resolve_segments resolved (seg # segs) =
     (if seg = ''..'' then resolve_segments (butlast resolved) segs
      else if seg = ''.'' then resolve_segments resolved segs
      else resolve_segments (resolved @ [seg]) segs)"

text \<open>\<open>segments[1:-1] = filter(None, segments[1:-1])\<close>\<close>

definition drop_empty_inner :: "string list \<Rightarrow> string list" where
  "drop_empty_inner segs =
     (if length segs < 2 then segs
      else hd segs # filter (\<lambda>s. s \<noteq> []) (butlast (tl segs)) @ [last segs])"

text \<open>\<open>urljoin(base, url)\<close>\<close>

definition urljoin :: "(string \<Rightarrow> bool) \<Rightarrow> string \<Rightarrow> string \<Rightarrow> error + string" where
  "urljoin bracketed_host_ok base url =
     (if base = [] then Inr url
      else if url = [] then Inr base
      else case urlparse bracketed_host_ok base [] of
        Inl e \<Rightarrow> Inl e
      | Inr b \<Rightarrow>
       (case urlparse bracketed_host_ok url (p_scheme b) of
          Inl e \<Rightarrow> Inl e
        | Inr u \<Rightarrow>
            if p_scheme u \<noteq> p_scheme b \<or> p_scheme u \<notin> set uses_relative then Inr url
            else if p_scheme u \<in> set uses_netloc \<and> p_netloc u \<noteq> []
            then Inr (urlunparse (p_scheme u) (p_netloc u) (p_path u) (p_params u) (p_query u)
                        (p_fragment u))
            else
              (let netloc = (if p_scheme u \<in> set uses_netloc then p_netloc b else p_netloc u)
               in if p_path u = [] \<and> p_params u = []
                  then Inr (urlunparse (p_scheme u) netloc (p_path b) (p_params b)
                              (if p_query u = [] then p_query b else p_query u) (p_fragment u))
                  else
                    (let base_parts0 = split_on CHR ''/'' (p_path b);
                         base_parts = (if last base_parts0 \<noteq> [] then butlast base_parts0
                                       else base_parts0);
                         segments =
                           (if take 1 (p_path u) = ''/'' then split_on CHR ''/'' (p_path u)
                            else drop_empty_inner (base_parts @ split_on CHR ''/'' (p_path u)));
                         resolved0 = resolve_segments [] segments;
                         resolved = (if last segments \<in> {''.'', ''..''} then resolved0 @ [[]]
                                     else resolved0);
                         joined = join_with ''/'' resolved
                     in Inr (urlunparse (p_scheme u) netloc (if joined = [] then ''/'' else joined)
                               (p_params u) (p_query u) (p_fragment u))))))"

subsection \<open>Normalization and scope\<close>

text \<open>
  \<open>normalize_url\<close> (app.py):
  \<^verbatim>\<open>
  joined = urljoin(base, link)
  p = urlparse(joined)
  return f"{p.scheme}://{p.netloc}{p.path}"
  \<close>
\<close>

definition normalize_url :: "(string \<Rightarrow> bool) \<Rightarrow> string \<Rightarrow> string \<Rightarrow> error + string" where
  "normalize_url bracketed_host_ok base link =
     (case urljoin bracketed_host_ok base link of
        Inl e \<Rightarrow> Inl e
      | Inr joined \<Rightarrow>
          (case urlparse bracketed_host_ok joined [] of
             Inl e \<Rightarrow> Inl e
           | Inr p \<Rightarrow> Inr (p_scheme p @ ''://'' @ p_netloc p @ p_path p)))"

text \<open>\<open>s.startswith(p)\<close>, \<open>s.endswith(p)\<close> and \<open>sub in s\<close>.\<close>

definition startswith :: "string \<Rightarrow> string \<Rightarrow> bool" where
  "startswith s p = (take (length p) s = p)"

definition endswith :: "string \<Rightarrow> string \<Rightarrow> bool" where
  "endswith s p = (length p \<le> length s \<and> drop (length s - length p) s = p)"

fun contains :: "string \<Rightarrow> string \<Rightarrow> bool" where
  "contains sub [] = (sub = [])"
| "contains sub (c # cs) = (startswith (c # cs) sub \<or> contains sub cs)"

text \<open>The scope of the crawl, \<open>START_ROOT\<close> (app.py). The scope check is the expression
  \<open>urlparse(url).netloc.endswith(root)\<close>, written twice in \<open>background_scrape\<close>.\<close>

definition START_ROOT :: string where
  "START_ROOT = ''kiit.ac.in''"

section \<open>Crawl engine\<close>

text \<open>
  The world outside the crawler is a parameter \<open>W\<close>:
  \<^item> \<open>w_can_fetch url\<close>: what \<open>can_fetch_url\<close> answers from the robots rules (an exception
    of the parser counts as allowed there);
  \<^item> \<open>w_get url\<close>: the response of \<open>requests.get\<close>, or \<open>None\<close> when it raises;
  \<^item> \<open>w_stopped n\<close>: whether the loop test of turn \<open>n\<close> finds \<open>_scrape_state["running"]\<close>
    cleared by \<open>scrape_stop\<close>;
  \<^item> \<open>w_now n\<close>: the clock at turn \<open>n\<close>.
  A response carries what the libraries make of its body: \<open>resp_pdf\<close> is the list of page
  texts PyMuPDF extracts (\<open>None\<close> when it raises), \<open>resp_title\<close> is
  \<open>soup.title.string\<close> (\<open>None\<close> when the document has no title element or the element has
  no single string), \<open>resp_hrefs\<close> are the \<open>href\<close> values of \<open>soup.find_all("a", href=True)\<close>
  in document order, \<open>resp_text\<close> is \<open>soup.get_text(separator=" ")\<close> after the
  non-content elements are removed in \<open>visible_text\<close>.
\<close>

record response =
  resp_status :: int
  resp_ctype :: "string option"
  resp_pdf :: "string list option"
  resp_title :: "string option"
  resp_hrefs :: "string list"
  resp_text :: string

record web =
  w_can_fetch :: "string \<Rightarrow> bool"
  w_get :: "string \<Rightarrow> response option"
  w_stopped :: "nat \<Rightarrow> bool"
  w_now :: "nat \<Rightarrow> nat"

text \<open>
  The locals of \<open>background_scrape\<close> and the counters it keeps in \<open>_scrape_state\<close>. The
  set \<open>visited\<close> is the list of its elements in insertion order; an element is only added
  when it is not in the set, so the length of the list is the size of the set.
  \<open>cs_turn\<close> counts the iterations of the loop.
\<close>

record crawl_state =
  cs_queue :: "string list"
  cs_visited :: "string list"
  cs_saved :: nat
  cs_last_url :: "string option"
  cs_db :: page_store
  cs_turn :: nat

text \<open>
  The loop over the anchors. An exception of \<open>normalize_url\<close> or \<open>urlparse\<close> leaves the
  loop for the handler of the iteration (\<open>except Exception: ... continue\<close>): the links
  appended so far stay in the queue.
\<close>

fun enqueue_links ::
  "(string \<Rightarrow> bool) \<Rightarrow> string \<Rightarrow> string \<Rightarrow> string list \<Rightarrow> string list \<Rightarrow> string list \<Rightarrow> string list" where
  "enqueue_links bh root url visited queue [] = queue"
| "enqueue_links bh root url visited queue (href # hrefs) =
     (if startswith href ''mailto:'' \<or> startswith href ''tel:'' \<or> startswith href ''javascript:''
      then enqueue_links bh root url visited queue hrefs
      else case normalize_url bh url href of
             Inl e \<Rightarrow> queue
           | Inr normalized \<Rightarrow>
               (case urlparse bh normalized [] of
                  Inl e \<Rightarrow> queue
                | Inr p \<Rightarrow>
                    if endswith (p_netloc p) root \<and> normalized \<notin> set visited
                    then enqueue_links bh root url visited (queue @ [normalized]) hrefs
                    else enqueue_links bh root url visited queue hrefs))"

text \<open>
  The titles:
  \<open>title = soup.title.string.strip() if soup.title and soup.title.string else url\<close> for
  HTML, \<open>title = url.split("/")[-1] or url\<close> for PDF.
\<close>

definition html_title :: "string \<Rightarrow> string option \<Rightarrow> string" where
  "html_title url title_string =
     (case title_string of
        Some s \<Rightarrow> if s \<noteq> [] then strip s else url
      | None \<Rightarrow> url)"

definition pdf_title :: "string \<Rightarrow> string" where
  "pdf_title url = (let t = last (split_on CHR ''/'' url) in if t \<noteq> [] then t else url)"

text \<open>The end of the \<open>try\<close> block: store the page if its content is not blank, then
  enqueue the links of an HTML page.\<close>

definition save_page ::
  "(string \<Rightarrow> bool) \<Rightarrow> web \<Rightarrow> string \<Rightarrow> string \<Rightarrow> string \<Rightarrow> string \<Rightarrow> string list option \<Rightarrow>
     crawl_state \<Rightarrow> crawl_state" where
  "save_page bh W root url title content soup_hrefs st =
     (let st1 = (if strip content \<noteq> []
                 then st\<lparr>cs_db := upsert_page (cs_db st) (w_now W (cs_turn st)) url title content,
                         cs_saved := Suc (cs_saved st)\<rparr>
                 else st)
      in case soup_hrefs of
           None \<Rightarrow> st1
         | Some hrefs \<Rightarrow>
             st1\<lparr>cs_queue := enqueue_links bh root url (cs_visited st1) (cs_queue st1) hrefs\<rparr>)"

text \<open>The \<open>try\<close> block: fetch, dispatch on the content type, extract. Every
  exception and every skipped response leaves the state as it is.\<close>

definition fetch_page ::
  "(string \<Rightarrow> bool) \<Rightarrow> (string \<Rightarrow> string) \<Rightarrow> web \<Rightarrow> string \<Rightarrow> string \<Rightarrow> crawl_state \<Rightarrow> crawl_state" where
  "fetch_page bh charref W root url st =
     (case w_get W url of
        None \<Rightarrow> st
      | Some resp \<Rightarrow>
          if resp_status resp \<noteq> 200 then st
          else (let ctype = lower (or_empty (resp_ctype resp))
                in if contains ''pdf'' ctype \<or> endswith (lower url) ''.pdf''
                   then (case resp_pdf resp of
                           None \<Rightarrow> st
                         | Some pages \<Rightarrow>
                             save_page bh W root url (pdf_title url) (join_with [CHR 0x0A] pages) None st)
                   else if contains ''text'' ctype \<or> contains ''html'' ctype
                   then save_page bh W root url (html_title url (resp_title resp))
                          (clean_text charref (resp_text resp)) (Some (resp_hrefs resp)) st
                   else st))"

text \<open>
  One iteration of the \<open>while\<close> loop. The scope test on the dequeued url stands before
  the \<open>try\<close> block: a \<open>ValueError\<close> of \<open>urlparse\<close> there ends the job (\<open>Inl\<close>).
\<close>

definition crawl_step ::
  "(string \<Rightarrow> bool) \<Rightarrow> (string \<Rightarrow> string) \<Rightarrow> web \<Rightarrow> string \<Rightarrow> crawl_state \<Rightarrow> error \<times> crawl_state + crawl_state" where
  "crawl_step bh charref W root st =
     (let url = hd (cs_queue st);
          st1 = st\<lparr>cs_queue := tl (cs_queue st), cs_turn := Suc (cs_turn st)\<rparr>
      in if url \<in> set (cs_visited st1) then Inr st1
         else (let st2 = st1\<lparr>cs_visited := cs_visited st1 @ [url], cs_last_url := Some url\<rparr>
               in case urlparse bh url [] of
                    Inl e \<Rightarrow> Inl (e, st2)
                  | Inr p \<Rightarrow>
                      if \<not> endswith (p_netloc p) root then Inr st2
                      else if \<not> w_can_fetch W url then Inr st2
                      else Inr (fetch_page bh charref W root url st2)))"

text \<open>An iteration that returns either drops a queued url that was visited before, or
  visits one more url: the loop terminates.\<close>

lemma save_page_visited: "cs_visited (save_page bh W root url title content hs st) = cs_visited st"
  by (simp add: save_page_def Let_def split: option.splits)

lemma fetch_page_visited: "cs_visited (fetch_page bh charref W root url st) = cs_visited st"
  by (simp add: fetch_page_def Let_def save_page_visited split: option.splits)

lemma crawl_step_progress:
  assumes "crawl_step bh charref W root st = Inr st'" and "cs_queue st \<noteq> []"
  shows "(cs_visited st' = cs_visited st \<and> length (cs_queue st') < length (cs_queue st)) \<or>
         length (cs_visited st') = Suc (length (cs_visited st))"
proof (cases "hd (cs_queue st) \<in> set (cs_visited st)")
  case True
  with assms show ?thesis by (auto simp: crawl_step_def Let_def)
next
  case False
  with assms(1) have "length (cs_visited st') = Suc (length (cs_visited st))"
    by (auto simp: crawl_step_def Let_def fetch_page_visited split: sum.splits if_splits)
  then show ?thesis ..
qed

text \<open>
  \<open>while queue and len(visited) < max_pages and _scrape_state["running"]\<close>: the result
  is the exception that ended the loop, if any, and the final state.
\<close>

function crawl_loop ::
  "(string \<Rightarrow> bool) \<Rightarrow> (string \<Rightarrow> string) \<Rightarrow> web \<Rightarrow> string \<Rightarrow> int \<Rightarrow> crawl_state \<Rightarrow> error option \<times> crawl_state" where
  "crawl_loop bh charref W root max_pages st =
     (if cs_queue st \<noteq> [] \<and> int (length (cs_visited st)) < max_pages \<and> \<not> w_stopped W (cs_turn st)
      then (case crawl_step bh charref W root st of
              Inl (e, st') \<Rightarrow> (Some e, st')
            | Inr st' \<Rightarrow> crawl_loop bh charref W root max_pages st')
      else (None, st))"
  by pat_completeness auto
termination
proof (relation "measures [\<lambda>(bh, charref, W, root, max_pages, st). nat (max_pages - int (length (cs_visited st))),
                           \<lambda>(bh, charref, W, root, max_pages, st). length (cs_queue st)]")
  show "wf (measures [\<lambda>(bh, charref, W, root, max_pages, st). nat (max_pages - int (length (cs_visited st))),
                           \<lambda>(bh, charref, W, root, max_pages, st). length (cs_queue st)])"
    by simp
next
  fix bh :: "string \<Rightarrow> bool" and charref :: "string \<Rightarrow> string" and W :: web and root :: string
    and max_pages :: int and st st' :: crawl_state
  assume c: "cs_queue st \<noteq> [] \<and> int (length (cs_visited st)) < max_pages \<and> \<not> w_stopped W (cs_turn st)"
    and s: "crawl_step bh charref W root st = Inr st'"
  from crawl_step_progress [OF s] c
  show "((bh, charref, W, root, max_pages, st'), (bh, charref, W, root, max_pages, st)) \<in>
     measures [\<lambda>(bh, charref, W, root, max_pages, st). nat (max_pages - int (length (cs_visited st))),
               \<lambda>(bh, charref, W, root, max_pages, st). length (cs_queue st)]"
    by auto
qed

declare crawl_loop.simps [simp del]

text \<open>\<open>_scrape_state\<close> and \<open>background_scrape\<close> (app.py). \<open>update\<close> at the start leaves
  \<open>last_url\<close> as it was; \<open>finally\<close> clears \<open>running\<close> and sets \<open>finished_at\<close>.\<close>

record scrape_state =
  running :: bool
  pages_saved :: nat
  started_at :: "nat option"
  finished_at :: "nat option"
  last_url :: "string option"
  job_error :: "error option"

definition idle_job :: scrape_state where
  "idle_job = \<lparr>running = False, pages_saved = 0, started_at = None, finished_at = None,
               last_url = None, job_error = None\<rparr>"

definition initial_crawl :: "scrape_state \<Rightarrow> page_store \<Rightarrow> string \<Rightarrow> crawl_state" where
  "initial_crawl prev db start_url =
     \<lparr>cs_queue = [start_url], cs_visited = [], cs_saved = 0, cs_last_url = last_url prev,
      cs_db = db, cs_turn = 0\<rparr>"

definition background_scrape ::
  "(string \<Rightarrow> bool) \<Rightarrow> (string \<Rightarrow> string) \<Rightarrow> web \<Rightarrow> scrape_state \<Rightarrow> page_store \<Rightarrow> string \<Rightarrow> int \<Rightarrow>
     scrape_state \<times> crawl_state" where
  "background_scrape bh charref W prev db start_url max_pages =
     (let (err, st) = crawl_loop bh charref W START_ROOT max_pages (initial_crawl prev db start_url)
      in (\<lparr>running = False, pages_saved = cs_saved st, started_at = Some (w_now W 0),
           finished_at = Some (w_now W (cs_turn st)), last_url = cs_last_url st,
           job_error = err\<rparr>, st))"

section \<open>Concrete inputs for the runs below\<close>

text \<open>Three pages; the second shares no character of its content with the query "x".\<close>

definition example_db :: page_store where
  "example_db = run_upserts empty_store
     [(1, ''u'', ''T'', ''x''), (2, ''v'', ''T'', ''y''), (3, ''w'', ''T'', ''xx'')]"

text \<open>A page whose stored content is already normalized and is 801 characters long:
  799 letters, a space and one more letter.\<close>

definition long_content :: string where
  "long_content = replicate 799 CHR ''a'' @ '' b''"

definition long_db :: page_store where
  "long_db = run_upserts empty_store [(1, ''u'', ''T'', long_content)]"

text \<open>A page indexed once and then overwritten with an empty title and content;
  \<open>reindex_snapshot\<close> is the index built in between.\<close>

definition reindex_db_before :: page_store where
  "reindex_db_before = run_upserts empty_store [(1, ''u'', ''T'', ''x'')]"

definition reindex_snapshot :: "(string, nat list) index_state" where
  "reindex_snapshot = snd (build_tfidf_index toy_sklearn no_charref reindex_db_before initial_index)"

definition reindex_db_after :: page_store where
  "reindex_db_after = upsert_page reindex_db_before 2 ''u'' [] []"

text \<open>The index after the rebuild over the overwritten page has raised.\<close>

definition halfbuilt_snapshot :: "(string, nat list) index_state" where
  "halfbuilt_snapshot =
     snd (build_tfidf_index toy_sklearn no_charref reindex_db_after reindex_snapshot)"

text \<open>A stand-in for \<open>_check_bracketed_host\<close> in concrete runs, none of which has a
  bracket in a netloc: it is never consulted there.\<close>

definition no_brackets :: "string \<Rightarrow> bool" where
  "no_brackets h = False"

text \<open>Two small webs. In the first the start page links to a host that merely ends in
  the root domain's name, and to a foreign host. In the second the start page has a title
  of three spaces.\<close>

definition html_page :: "string \<Rightarrow> string list \<Rightarrow> string \<Rightarrow> response" where
  "html_page t hs txt =
     \<lparr>resp_status = 200, resp_ctype = Some ''text/html; charset=utf-8'', resp_pdf = None,
      resp_title = Some t, resp_hrefs = hs, resp_text = txt\<rparr>"

definition lookalike_web :: web where
  "lookalike_web =
     \<lparr>w_can_fetch = (\<lambda>u. True),
      w_get = (\<lambda>u. if u = ''https://kiit.ac.in''
                   then Some (html_page ''KIIT'' [''https://evilkiit.ac.in/'', ''https://example.com/''] ''Welcome'')
                   else if u = ''https://evilkiit.ac.in/''
                   then Some (html_page ''Evil'' [] ''Not the university'')
                   else if u = ''https://example.com/''
                   then Some (html_page ''Example'' [] ''Elsewhere'')
                   else None),
      w_stopped = (\<lambda>n. False),
      w_now = (\<lambda>n. n)\<rparr>"

definition blank_title_web :: web where
  "blank_title_web =
     \<lparr>w_can_fetch = (\<lambda>u. True),
      w_get = (\<lambda>u. if u = ''https://kiit.ac.in''
                   then Some (html_page ''   '' [] ''Welcome'')
                   else None),
      w_stopped = (\<lambda>n. False),
      w_now = (\<lambda>n. n)\<rparr>"

section \<open>Properties of the Page Store\<close>

subsection \<open>The url column stays unique\<close>


lemma conflict_update_id: "pg_id (conflict_update now u t c r) = pg_id r"
  by (simp add: conflict_update_def)









text \<open>
  C10. Upserting a url that is already stored keeps the number and order of the rows of
  the table; every row keeps its id and its url, and every row of another url is unchanged
  as a whole. Only title, content and fetched_at of the row with that url can differ.
\<close>

theorem upsert_page_frame:
  assumes "u \<in> set (map pg_url (rows db))"
  shows "length (rows (upsert_page db now u t c)) = length (rows db) \<and>
         (\<forall>i < length (rows db).
            pg_id (rows (upsert_page db now u t c) ! i) = pg_id (rows db ! i) \<and>
            pg_url (rows (upsert_page db now u t c) ! i) = pg_url (rows db ! i) \<and>
            (pg_url (rows db ! i) \<noteq> u \<longrightarrow> rows (upsert_page db now u t c) ! i = rows db ! i))"
  using assms by (simp add: upsert_page_def conflict_update_def)

theorem upsert_page_frame_witness:
  "(let db = run_upserts empty_store [(1, ''a'', ''A'', ''x''), (2, ''b'', ''B'', ''y'')];
        db' = upsert_page db 3 ''b'' ''B2'' ''y2''
    in ''b'' \<in> set (map pg_url (rows db)) \<and>
       length (rows db') = length (rows db) \<and>
       (\<forall>i < length (rows db).
          pg_id (rows db' ! i) = pg_id (rows db ! i) \<and>
          pg_url (rows db' ! i) = pg_url (rows db ! i) \<and>
          (pg_url (rows db ! i) \<noteq> ''b'' \<longrightarrow> rows db' ! i = rows db ! i)) \<and>
       rows db' ! 1 \<noteq> rows db ! 1)"
proof -
  let ?db = "run_upserts empty_store [(1, ''a'', ''A'', ''x''), (2, ''b'', ''B'', ''y'')]"
  have h: "''b'' \<in> set (map pg_url (rows ?db))"
    by (simp add: upsert_page_def empty_store_def)
  have ne: "rows (upsert_page ?db 3 ''b'' ''B2'' ''y2'') ! 1 \<noteq> rows ?db ! 1"
    by (simp add: upsert_page_def empty_store_def conflict_update_def)
  from upsert_page_frame [OF h, of 3 "''B2''" "''y2''"] h ne show ?thesis
    unfolding Let_def by blast
qed

section \<open>Properties of the search index\<close>


lemma length_strip_le: "length (strip s) \<le> length s"
proof -
  have "length (strip s) \<le> length (dropWhile is_space s)"
    unfolding strip_def using length_dropWhile_le [of is_space "rev (dropWhile is_space s)"] by simp
  also have "\<dots> \<le> length s" by (rule length_dropWhile_le)
  finally show ?thesis .
qed

lemma length_collapse_ws_le: "length (collapse_ws s) \<le> length s"
proof (induction s rule: collapse_ws.induct)
  case 1
  then show ?case by simp
next
  case (2 c cs)
  show ?case
  proof (cases "is_space c")
    case True
    with 2 have "length (collapse_ws (dropWhile is_space cs)) \<le> length (dropWhile is_space cs)" by simp
    also have "\<dots> \<le> length cs" by (rule length_dropWhile_le)
    finally show ?thesis using True by simp
  next
    case False
    with 2 show ?thesis by simp
  qed
qed

lemma length_unescape_le:
  "\<forall>s. length (charref s) \<le> length s \<Longrightarrow> length (unescape charref s) \<le> length s"
  by (simp add: unescape_def)

lemma length_clean_text_le:
  assumes "\<forall>s. length (charref s) \<le> length s"
  shows "length (clean_text charref s) \<le> length s"
proof (cases "s = []")
  case True
  then show ?thesis by (simp add: clean_text_def)
next
  case False
  have "length (strip (collapse_ws (unescape charref s))) \<le> length (collapse_ws (unescape charref s))"
    by (rule length_strip_le)
  also have "\<dots> \<le> length (unescape charref s)" by (rule length_collapse_ws_le)
  also have "\<dots> \<le> length s" by (rule length_unescape_le [OF assms])
  finally show ?thesis using False by (simp add: clean_text_def)
qed

lemma length_snippet_of_le:
  assumes "\<forall>s. length (charref s) \<le> length s"
  shows "length (snippet_of charref row) \<le> 800"
proof -
  have "length (snippet_of charref row) \<le> length (take 800 (or_empty (d_content row)))"
    unfolding snippet_of_def by (rule length_clean_text_le [OF assms])
  also have "\<dots> \<le> 800" by simp
  finally show ?thesis .
qed

lemma collect_results_member:
  "collect_results charref rws sims idxs = Inr res \<Longrightarrow> r \<in> set res \<Longrightarrow>
   \<exists>i \<in> set idxs. i < length rws \<and> r_url r = d_url (rws ! i) \<and> r_title r = d_title (rws ! i) \<and>
      r_snippet r = snippet_of charref (rws ! i) \<and> r_score r = sims ! i"
proof (induction idxs arbitrary: res)
  case Nil
  then show ?case by simp
next
  case (Cons i idxs)
  from Cons.prems(1) obtain rs where lt: "i < length rws"
    and rs: "collect_results charref rws sims idxs = Inr rs"
    and res: "res = \<lparr>r_url = d_url (rws ! i), r_title = d_title (rws ! i),
                      r_snippet = snippet_of charref (rws ! i), r_score = sims ! i\<rparr> # rs"
    by (auto split: if_splits sum.splits)
  show ?case
  proof (cases "r \<in> set rs")
    case True
    from Cons.IH [OF rs True] show ?thesis by auto
  next
    case False
    with Cons.prems(2) res lt show ?thesis by auto
  qed
qed

lemma collect_results_in_range:
  "\<forall>i \<in> set idxs. i < length rws \<Longrightarrow>
   \<exists>res. collect_results charref rws sims idxs = Inr res \<and> length res = length idxs \<and>
      map r_url res = map (\<lambda>i. d_url (rws ! i)) idxs"
  by (induction idxs) auto

lemma retrieve_cases:
  assumes "retrieve_tfidf L charref db st query top_n = (Inr res, st')"
  shows "res = [] \<or> (\<exists>sims idxs. collect_results charref (tfidf_rows st') sims idxs = Inr res)"
proof (cases "strip query = []")
  case True
  with assms show ?thesis by (simp add: retrieve_tfidf_def)
next
  case False
  obtain r st1 where ens: "ensure_index_up_to_date L charref db st = (r, st1)"
    by (cases "ensure_index_up_to_date L charref db st")
  show ?thesis
  proof (cases r)
    case (Inl e)
    with assms False ens show ?thesis by (simp add: retrieve_tfidf_def)
  next
    case (Inr k)
    show ?thesis
    proof (cases "tfidf_vectorizer st1")
      case None
      with assms False ens Inr show ?thesis by (simp add: retrieve_tfidf_def)
    next
      case (Some vz)
      note vz = this
      show ?thesis
      proof (cases "tfidf_matrix st1")
        case None
        with assms False ens Inr vz show ?thesis by (simp add: retrieve_tfidf_def)
      next
        case (Some mx)
        show ?thesis
        proof (cases "tfidf_rows st1 = []")
          case True
          with assms False ens Inr vz Some show ?thesis by (simp add: retrieve_tfidf_def)
        next
          case ne: False
          show ?thesis
          proof (cases vz)
            case Unfitted
            with assms False ens Inr vz Some ne show ?thesis by (simp add: retrieve_tfidf_def)
          next
            case (Fitted v)
            with assms False ens Inr vz Some ne show ?thesis
              by (auto simp add: retrieve_tfidf_def Let_def)
          qed
        qed
      qed
    qed
  qed
qed

text \<open>
  C3, as the code has it. Every result of \<open>retrieve_tfidf\<close> belongs to a row of the
  snapshot, and its snippet is \<open>clean_text\<close> of the first 800 characters of that row's
  content: the content is cut first and normalized afterwards. As character references
  never lengthen a string, the snippet has at most 800 characters.
\<close>

theorem retrieve_snippet:
  assumes "\<forall>s. length (charref s) \<le> length s"
    and "retrieve_tfidf L charref db st query top_n = (Inr res, st')"
    and "r \<in> set res"
  shows "\<exists>row \<in> set (tfidf_rows st').
           r_url r = d_url row \<and>
           r_snippet r = clean_text charref (take 800 (or_empty (d_content row))) \<and>
           length (r_snippet r) \<le> 800"
proof -
  from retrieve_cases [OF assms(2)] assms(3) obtain sims idxs
    where "collect_results charref (tfidf_rows st') sims idxs = Inr res" by auto
  from collect_results_member [OF this assms(3)] obtain i
    where i: "i < length (tfidf_rows st')" "r_url r = d_url (tfidf_rows st' ! i)"
      "r_snippet r = snippet_of charref (tfidf_rows st' ! i)" by blast
  have "length (r_snippet r) \<le> 800"
    using length_snippet_of_le [OF assms(1)] i(3) by simp
  with i show ?thesis
    unfolding snippet_of_def using nth_mem [OF i(1)] by auto
qed

lemma set_argsort: "set (argsort sims) = {0..<length sims}"
  by (simp add: argsort_def)

lemma length_argsort: "length (argsort sims) = length sims"
  by (simp add: argsort_def)

lemma build_empty:
  "rows db = [] \<Longrightarrow>
   build_tfidf_index L charref db st =
     (Inr 0, st\<lparr>tfidf_rows := [], tfidf_vectorizer := None, tfidf_matrix := None,
                last_index_count := 0\<rparr>)"
  by (simp add: build_tfidf_index_def)

lemma build_fail:
  "rows db \<noteq> [] \<Longrightarrow> fit L (map (doc_text charref) (rows db)) = None \<Longrightarrow>
   build_tfidf_index L charref db st =
     (Inl ValueError, st\<lparr>tfidf_rows := map doc_of (rows db), tfidf_vectorizer := Some Unfitted\<rparr>)"
  by (simp add: build_tfidf_index_def)

lemma build_success:
  "rows db \<noteq> [] \<Longrightarrow> fit L (map (doc_text charref) (rows db)) = Some v \<Longrightarrow>
   build_tfidf_index L charref db st =
     (Inr (length (rows db)),
      st\<lparr>tfidf_rows := map doc_of (rows db), tfidf_vectorizer := Some (Fitted v),
         tfidf_matrix := Some (map (transform L v) (map (doc_text charref) (rows db))),
         last_index_count := length (rows db)\<rparr>)"
  by (simp add: build_tfidf_index_def)

lemma build_ok_snapshot:
  assumes "build_tfidf_index L charref db st = (Inr m, st')"
  shows "snapshot_ok st' \<and> last_index_count st' = m"
proof (cases "rows db = []")
  case True
  from build_empty [OF True, of L charref st] assms show ?thesis
    by (auto simp: snapshot_ok_def)
next
  case False
  show ?thesis
  proof (cases "fit L (map (doc_text charref) (rows db))")
    case None
    from build_fail [OF False None, of st] assms show ?thesis by simp
  next
    case (Some v)
    from build_success [OF False Some, of st] assms False show ?thesis
      by (auto simp: snapshot_ok_def)
  qed
qed

lemma ensure_ok_snapshot:
  assumes "snapshot_ok st" and "ensure_index_up_to_date L charref db st = (Inr m, st')"
  shows "snapshot_ok st' \<and> last_index_count st' = m"
proof (cases "length (rows db) \<noteq> last_index_count st \<or> tfidf_vectorizer st = None \<or> tfidf_matrix st = None")
  case True
  with assms(2) have "build_tfidf_index L charref db st = (Inr m, st')"
    by (simp add: ensure_index_up_to_date_def Let_def)
  then show ?thesis by (rule build_ok_snapshot)
next
  case False
  with assms(2) have "st' = st" "m = last_index_count st"
    by (auto simp add: ensure_index_up_to_date_def Let_def)
  with assms(1) show ?thesis by simp
qed

lemma snapshot_ok_nonempty:
  assumes "snapshot_ok st" and "0 < last_index_count st"
  shows "\<exists>v mx. tfidf_vectorizer st = Some (Fitted v) \<and> tfidf_matrix st = Some mx \<and>
      length mx = last_index_count st \<and> length (tfidf_rows st) = last_index_count st"
proof (cases "tfidf_vectorizer st")
  case None
  with assms show ?thesis
    by (cases "tfidf_matrix st") (simp_all add: snapshot_ok_def)
next
  case (Some vz)
  show ?thesis
  proof (cases vz)
    case Unfitted
    with Some assms show ?thesis by (simp add: snapshot_ok_def)
  next
    case (Fitted v)
    with Some assms show ?thesis
      by (cases "tfidf_matrix st") (simp_all add: snapshot_ok_def)
  qed
qed

lemma retrieve_fitted:
  assumes "strip query \<noteq> []"
    and "ensure_index_up_to_date L charref db st = (Inr m, st')"
    and "tfidf_vectorizer st' = Some (Fitted v)" and "tfidf_matrix st' = Some mx"
    and "tfidf_rows st' \<noteq> []"
  shows "retrieve_tfidf L charref db st query top_n =
     (collect_results charref (tfidf_rows st') (map (cosine L (transform L v query)) mx)
        (slice_to top_n (rev (argsort (map (cosine L (transform L v query)) mx)))), st')"
  unfolding retrieve_tfidf_def Let_def
  apply (simp only: assms if_False prod.case sum.case option.case vectorizer.case)
  done

lemma image_nth_upt: "(\<lambda>i. f (xs ! i)) ` {0..<length xs} = set (map f xs)"
proof -
  have "map (\<lambda>i. f (xs ! i)) [0..<length xs] = map f xs"
    by (rule nth_equalityI) simp_all
  then have "set (map (\<lambda>i. f (xs ! i)) [0..<length xs]) = set (map f xs)"
    by (rule arg_cong)
  then show ?thesis
    by (simp only: set_map set_upt)
qed

text \<open>
  C9, as the code has it. On a snapshot as a successful build leaves it (\<open>snapshot_ok\<close>),
  a non-blank query with \<open>top_n \<ge> 0\<close> for which the freshness check reports \<open>m > 0\<close>
  indexed documents returns exactly \<open>min top_n m\<close> results. No result is dropped for its
  score: when \<open>top_n\<close> reaches \<open>m\<close>, every indexed document is returned.
\<close>

theorem retrieve_count:
  assumes ok: "snapshot_ok st" and q: "strip query \<noteq> []" and n: "0 \<le> top_n"
    and ens: "ensure_index_up_to_date L charref db st = (Inr m, st')" and m: "0 < m"
  shows "\<exists>res. retrieve_tfidf L charref db st query top_n = (Inr res, st') \<and>
           length res = min (nat top_n) m \<and>
           (m \<le> nat top_n \<longrightarrow> set (map r_url res) = set (map d_url (tfidf_rows st')))"
proof -
  from ensure_ok_snapshot [OF ok ens] have ok': "snapshot_ok st'" and cnt: "last_index_count st' = m"
    by simp_all
  from snapshot_ok_nonempty [OF ok'] cnt m obtain v mx
    where vz: "tfidf_vectorizer st' = Some (Fitted v)" and mx: "tfidf_matrix st' = Some mx"
      and lmx: "length mx = m" and lrows: "length (tfidf_rows st') = m" by auto
  define sims where "sims = map (cosine L (transform L v query)) mx"
  define idxs where "idxs = slice_to top_n (rev (argsort sims))"
  have lsims: "length sims = m" by (simp add: sims_def lmx)
  have idxs_take: "idxs = take (nat top_n) (rev (argsort sims))"
    using n by (simp add: idxs_def slice_to_def)
  have "set idxs \<subseteq> set (rev (argsort sims))"
    unfolding idxs_take by (rule set_take_subset)
  then have range: "\<forall>i \<in> set idxs. i < length (tfidf_rows st')"
    by (auto simp: set_argsort lsims lrows)
  from collect_results_in_range [OF range] obtain res
    where res: "collect_results charref (tfidf_rows st') sims idxs = Inr res"
      and lres: "length res = length idxs"
      and urls: "map r_url res = map (\<lambda>i. d_url (tfidf_rows st' ! i)) idxs" by blast
  from lrows m have rows_ne: "tfidf_rows st' \<noteq> []" by auto
  have ret: "retrieve_tfidf L charref db st query top_n = (Inr res, st')"
    using retrieve_fitted [OF q ens vz mx rows_ne, of top_n] res
    by (simp only: sims_def idxs_def)
  have len: "length res = min (nat top_n) m"
    by (simp add: lres idxs_take length_argsort lsims min.commute)
  have all: "set (map r_url res) = set (map d_url (tfidf_rows st'))" if "m \<le> nat top_n"
  proof -
    from that have "idxs = rev (argsort sims)"
      by (simp add: idxs_take length_argsort lsims)
    then have "set idxs = {0..<length (tfidf_rows st')}"
      by (simp add: set_argsort lsims lrows)
    then have "set (map r_url res) = (\<lambda>i. d_url (tfidf_rows st' ! i)) ` {0..<length (tfidf_rows st')}"
      by (simp add: urls)
    also have "\<dots> = set (map d_url (tfidf_rows st'))"
      by (rule image_nth_upt)
    finally show ?thesis .
  qed
  from ret len all show ?thesis by blast
qed

lemma dropWhile_hd: "xs \<noteq> [] \<Longrightarrow> \<not> P (hd xs) \<Longrightarrow> dropWhile P xs = xs"
  by (cases xs) simp_all

lemma strip_id:
  assumes "s \<noteq> []" and "\<not> is_space (hd s)" and "\<not> is_space (last s)"
  shows "strip s = s"
proof -
  have 1: "dropWhile is_space s = s" using assms(1,2) by (rule dropWhile_hd)
  have "dropWhile is_space (rev s) = rev s"
    using assms(1,3) by (intro dropWhile_hd) (simp_all add: hd_rev)
  with 1 show ?thesis by (simp add: strip_def)
qed

lemma strip_trailing_space:
  assumes "s \<noteq> []" and "\<not> is_space (hd s)" and "\<not> is_space (last s)" and "is_space c"
  shows "strip (s @ [c]) = s"
proof -
  have 1: "dropWhile is_space (s @ [c]) = s @ [c]"
    using assms(1,2) by (intro dropWhile_hd) simp_all
  have 2: "dropWhile is_space (rev s) = rev s"
    using assms(1,3) by (intro dropWhile_hd) (simp_all add: hd_rev)
  show ?thesis
    unfolding strip_def 1 using assms(4) 2 by simp
qed

lemma collapse_ws_plain:
  "\<forall>c \<in> set xs. \<not> is_space c \<Longrightarrow> collapse_ws (xs @ ys) = xs @ collapse_ws ys"
  by (induction xs) simp_all

lemma not_space_a: "\<not> is_space CHR ''a''"
  by (simp add: is_space_def)

lemma clean_text_cut:
  assumes "0 < n"
  shows "clean_text charref (replicate n CHR ''a'' @ '' '') = replicate n CHR ''a''"
proof -
  let ?A = "replicate n CHR ''a''"
  have ne: "?A \<noteq> []" using assms by simp
  have amp: "CHR ''&'' \<notin> set (?A @ '' '')" by auto
  have "collapse_ws (?A @ '' '') = ?A @ collapse_ws '' ''"
    by (rule collapse_ws_plain) (simp add: not_space_a)
  also have "collapse_ws '' '' = '' ''" by (simp add: is_space_def)
  finally have col: "collapse_ws (?A @ '' '') = ?A @ '' ''" .
  have "strip (?A @ '' '') = ?A"
    using ne by (intro strip_trailing_space) (simp_all add: not_space_a is_space_def hd_replicate last_replicate)
  with col amp show ?thesis
    by (simp add: clean_text_def unescape_def)
qed

lemma clean_text_whole:
  assumes "0 < n"
  shows "clean_text charref (replicate n CHR ''a'' @ '' b'') = replicate n CHR ''a'' @ '' b''"
proof -
  let ?A = "replicate n CHR ''a''"
  have ne: "?A \<noteq> []" using assms by simp
  have amp: "CHR ''&'' \<notin> set (?A @ '' b'')" by auto
  have "collapse_ws (?A @ '' b'') = ?A @ collapse_ws '' b''"
    by (rule collapse_ws_plain) (simp add: not_space_a)
  also have "collapse_ws '' b'' = '' b''" by (simp add: is_space_def)
  finally have col: "collapse_ws (?A @ '' b'') = ?A @ '' b''" .
  have "strip (?A @ '' b'') = ?A @ '' b''"
    using ne by (intro strip_id) (simp_all add: not_space_a is_space_def hd_replicate hd_append)
  with col amp show ?thesis
    by (simp add: clean_text_def unescape_def)
qed

lemma snippet_long: "snippet_of charref \<lparr>d_url = u, d_title = t, d_content = Some long_content\<rparr> = replicate 799 CHR ''a''"
proof -
  have "take 800 long_content = replicate 799 CHR ''a'' @ '' ''"
    by (simp add: long_content_def)
  then show ?thesis
    by (simp add: snippet_of_def clean_text_cut)
qed

lemma spec_long: "take 800 (clean_text charref long_content) = replicate 799 CHR ''a'' @ '' ''"
  by (simp add: long_content_def clean_text_whole)

lemma argsort_single: "argsort [s] = [0]"
  by (simp add: argsort_def)

lemma clean_text_nonempty:
  assumes "s \<noteq> []" and "\<not> is_space (hd s)" and "CHR ''&'' \<notin> set s"
  shows "clean_text charref s \<noteq> []"
proof -
  from assms(1) obtain x xs where s: "s = x # xs" by (cases s) auto
  with assms(2) have col: "collapse_ws s = x # collapse_ws xs" by simp
  have "dropWhile is_space (rev (x # collapse_ws xs)) \<noteq> []"
    using assms(2) s by (simp add: dropWhile_eq_Nil_conv)
  then have "strip (x # collapse_ws xs) \<noteq> []"
    using assms(2) s by (simp add: strip_def)
  with col assms(1,3) show ?thesis
    by (simp add: clean_text_def unescape_def)
qed

lemma retrieve_single:
  assumes r: "rows db = [r]" and f: "fit L [doc_text charref r] = Some v"
    and q: "strip query \<noteq> []" and n: "1 \<le> top_n"
  shows "fst (retrieve_tfidf L charref db initial_index query top_n) =
     Inr [\<lparr>r_url = pg_url r, r_title = pg_title r, r_snippet = snippet_of charref (doc_of r),
           r_score = cosine L (transform L v query) (transform L v (doc_text charref r))\<rparr>]"
proof -
  let ?st = "initial_index\<lparr>tfidf_rows := map doc_of (rows db), tfidf_vectorizer := Some (Fitted v),
         tfidf_matrix := Some (map (transform L v) (map (doc_text charref) (rows db))),
         last_index_count := length (rows db)\<rparr>"
  have ne: "rows db \<noteq> []" using r by simp
  have f': "fit L (map (doc_text charref) (rows db)) = Some v" using r f by simp
  have b: "build_tfidf_index L charref db initial_index = (Inr (length (rows db)), ?st)"
    by (rule build_success [OF ne f'])
  have e: "ensure_index_up_to_date L charref db initial_index = (Inr (length (rows db)), ?st)"
    using b r by (simp add: ensure_index_up_to_date_def initial_index_def)
  have "retrieve_tfidf L charref db initial_index query top_n =
     (collect_results charref (tfidf_rows ?st)
        (map (cosine L (transform L v query)) (map (transform L v) (map (doc_text charref) (rows db))))
        (slice_to top_n (rev (argsort (map (cosine L (transform L v query))
            (map (transform L v) (map (doc_text charref) (rows db))))))), ?st)"
    by (rule retrieve_fitted [OF q e]) (simp_all add: r)
  moreover have "slice_to top_n [0::nat] = [0]"
    using n by (simp add: slice_to_def)
  ultimately show ?thesis
    by (simp add: r argsort_single doc_of_def)
qed

text \<open>
  C3, as the spec states it (normalize the whole content, then cut to 800), fails on a
  stored page of 799 letters, a space and a letter: the code's snippet is the 799
  letters, the spec's is the 799 letters and the space.
\<close>

theorem snippet_order_counterexample:
  "\<not> isl (fst (retrieve_tfidf toy_sklearn no_charref long_db initial_index ''b'' 5)) \<and>
   map r_snippet (projr (fst (retrieve_tfidf toy_sklearn no_charref long_db initial_index ''b'' 5))) =
     [replicate 799 CHR ''a''] \<and>
   take 800 (clean_text no_charref long_content) = replicate 799 CHR ''a'' @ '' '' \<and>
   replicate 799 CHR ''a'' \<noteq> take 800 (clean_text no_charref long_content)"
proof -
  let ?r = "\<lparr>pg_id = Suc 0, pg_url = ''u'', pg_title = Some ''T'', pg_content = Some long_content,
             pg_fetched_at = 1\<rparr>"
  have rows: "rows long_db = [?r]"
    by (simp add: long_db_def upsert_page_def empty_store_def)
  have "''T '' @ long_content \<noteq> []" "\<not> is_space (hd (''T '' @ long_content))"
    "CHR ''&'' \<notin> set (''T '' @ long_content)"
    by (auto simp: is_space_def long_content_def)
  then have "clean_text no_charref (''T '' @ long_content) \<noteq> []"
    by (rule clean_text_nonempty)
  then have doc: "doc_text no_charref ?r \<noteq> []"
    by (simp add: doc_text_def)
  then have fit: "fit toy_sklearn [doc_text no_charref ?r] = Some (remdups (doc_text no_charref ?r))"
    by (simp add: toy_sklearn_def)
  have q: "strip ''b'' \<noteq> []" by (simp add: strip_def is_space_def)
  have "fst (retrieve_tfidf toy_sklearn no_charref long_db initial_index ''b'' 5) =
     Inr [\<lparr>r_url = pg_url ?r, r_title = pg_title ?r, r_snippet = snippet_of no_charref (doc_of ?r),
           r_score = cosine toy_sklearn (transform toy_sklearn (remdups (doc_text no_charref ?r)) ''b'')
              (transform toy_sklearn (remdups (doc_text no_charref ?r)) (doc_text no_charref ?r))\<rparr>]"
    by (rule retrieve_single [OF rows fit q]) simp
  moreover have "snippet_of no_charref (doc_of ?r) = replicate 799 CHR ''a''"
    by (simp add: doc_of_def snippet_long)
  ultimately have 1: "\<not> isl (fst (retrieve_tfidf toy_sklearn no_charref long_db initial_index ''b'' 5))"
    and 2: "map r_snippet (projr (fst (retrieve_tfidf toy_sklearn no_charref long_db initial_index ''b'' 5))) =
     [replicate 799 CHR ''a'']"
    by simp_all
  have 3: "take 800 (clean_text no_charref long_content) = replicate 799 CHR ''a'' @ '' ''"
    by (rule spec_long)
  have 4: "replicate 799 CHR ''a'' \<noteq> take 800 (clean_text no_charref long_content)"
    unfolding 3 by simp
  from 1 2 3 4 show ?thesis by blast
qed

text \<open>
  C8. A query that is empty or only whitespace returns the empty list and leaves the index
  state as it was: neither the freshness check nor a rebuild runs.
\<close>

theorem retrieve_tfidf_blank:
  "strip query = [] \<Longrightarrow> retrieve_tfidf L charref db st query top_n = (Inr [], st)"
  by (simp add: retrieve_tfidf_def)

theorem retrieve_tfidf_blank_witness:
  "strip ''   '' = [] \<and> rows example_db \<noteq> [] \<and>
   retrieve_tfidf toy_sklearn no_charref example_db initial_index ''   '' 5 = (Inr [], initial_index)"
proof -
  have h: "strip ''   '' = []" by (simp add: strip_def is_space_def)
  have ne: "rows example_db \<noteq> []" by (simp add: example_db_def upsert_page_def empty_store_def)
  from retrieve_tfidf_blank [OF h, of toy_sklearn no_charref example_db initial_index 5] h ne
  show ?thesis by simp
qed

lemma example_ensure:
  "fst (ensure_index_up_to_date toy_sklearn no_charref example_db initial_index) = Inr 3"
  by code_simp

lemma example_retrieve:
  "fst (retrieve_tfidf toy_sklearn no_charref example_db initial_index ''x'' 5) =
     Inr [\<lparr>r_url = ''w'', r_title = Some ''T'', r_snippet = ''xx'', r_score = 2\<rparr>,
          \<lparr>r_url = ''u'', r_title = Some ''T'', r_snippet = ''x'', r_score = 1\<rparr>,
          \<lparr>r_url = ''v'', r_title = Some ''T'', r_snippet = ''y'', r_score = 0\<rparr>]"
  by code_simp

theorem retrieve_count_witness:
  "snapshot_ok (initial_index :: (string, nat list) index_state) \<and> strip ''x'' \<noteq> [] \<and>
   fst (ensure_index_up_to_date toy_sklearn no_charref example_db initial_index) = Inr 3 \<and>
   (\<exists>res. retrieve_tfidf toy_sklearn no_charref example_db initial_index ''x'' 5 =
            (Inr res, snd (ensure_index_up_to_date toy_sklearn no_charref example_db initial_index)) \<and>
          length res = 3 \<and> map r_score res = [2, 1, 0])"
proof -
  let ?st' = "snd (ensure_index_up_to_date toy_sklearn no_charref example_db initial_index)"
  have ok: "snapshot_ok (initial_index :: (string, nat list) index_state)"
    by (simp add: snapshot_ok_def initial_index_def)
  have q: "strip ''x'' \<noteq> []" by (simp add: strip_def is_space_def)
  have ens: "ensure_index_up_to_date toy_sklearn no_charref example_db initial_index = (Inr 3, ?st')"
    using example_ensure by (simp add: prod_eq_iff)
  from retrieve_count [OF ok q _ ens, of 5] obtain res
    where res: "retrieve_tfidf toy_sklearn no_charref example_db initial_index ''x'' 5 = (Inr res, ?st')"
      and len: "length res = min (nat 5) 3" by auto
  from res example_retrieve have "map r_score res = [2, 1, 0]" by simp
  with ok q example_ensure res len show ?thesis by auto
qed

theorem retrieve_snippet_witness:
  "(\<forall>s. length (no_charref s) \<le> length s) \<and>
   fst (retrieve_tfidf toy_sklearn no_charref example_db initial_index ''x'' 5) =
     Inr [\<lparr>r_url = ''w'', r_title = Some ''T'', r_snippet = ''xx'', r_score = 2\<rparr>,
          \<lparr>r_url = ''u'', r_title = Some ''T'', r_snippet = ''x'', r_score = 1\<rparr>,
          \<lparr>r_url = ''v'', r_title = Some ''T'', r_snippet = ''y'', r_score = 0\<rparr>] \<and>
   (\<exists>row \<in> set (tfidf_rows (snd (retrieve_tfidf toy_sklearn no_charref example_db initial_index ''x'' 5))).
      ''w'' = d_url row \<and> ''xx'' = clean_text no_charref (take 800 (or_empty (d_content row))) \<and>
      length ''xx'' \<le> 800)"
proof -
  let ?r = "\<lparr>r_url = ''w'', r_title = Some ''T'', r_snippet = ''xx'', r_score = 2::nat\<rparr>"
  let ?res = "[?r, \<lparr>r_url = ''u'', r_title = Some ''T'', r_snippet = ''x'', r_score = 1\<rparr>,
          \<lparr>r_url = ''v'', r_title = Some ''T'', r_snippet = ''y'', r_score = 0\<rparr>]"
  let ?st' = "snd (retrieve_tfidf toy_sklearn no_charref example_db initial_index ''x'' 5)"
  have ne: "\<forall>s. length (no_charref s) \<le> length s" by (simp add: no_charref_def)
  have ret: "retrieve_tfidf toy_sklearn no_charref example_db initial_index ''x'' 5 = (Inr ?res, ?st')"
    using example_retrieve by (simp add: prod_eq_iff)
  have mem: "?r \<in> set ?res" by simp
  from retrieve_snippet [OF ne ret mem] ne example_retrieve show ?thesis by simp
qed

text \<open>
  C2, as the spec states it, fails: after a successful build, the page is overwritten with
  empty text and the rebuild raises; the rows list and the vectorizer are then those of the
  failed build, the matrix and the count those of the previous snapshot.
\<close>

theorem rebuild_failure_counterexample:
  "fst (build_tfidf_index toy_sklearn no_charref reindex_db_before initial_index) = Inr 1 \<and>
   reindex_snapshot = snd (build_tfidf_index toy_sklearn no_charref reindex_db_before initial_index) \<and>
   fst (build_tfidf_index toy_sklearn no_charref reindex_db_after reindex_snapshot) = Inl ValueError \<and>
   tfidf_rows (snd (build_tfidf_index toy_sklearn no_charref reindex_db_after reindex_snapshot))
     \<noteq> tfidf_rows reindex_snapshot \<and>
   tfidf_vectorizer (snd (build_tfidf_index toy_sklearn no_charref reindex_db_after reindex_snapshot))
     \<noteq> tfidf_vectorizer reindex_snapshot \<and>
   tfidf_matrix (snd (build_tfidf_index toy_sklearn no_charref reindex_db_after reindex_snapshot))
     = tfidf_matrix reindex_snapshot \<and>
   last_index_count (snd (build_tfidf_index toy_sklearn no_charref reindex_db_after reindex_snapshot))
     = last_index_count reindex_snapshot \<and>
   snd (build_tfidf_index toy_sklearn no_charref reindex_db_after reindex_snapshot) \<noteq> reindex_snapshot"
proof -
  let ?b = "build_tfidf_index toy_sklearn no_charref reindex_db_after reindex_snapshot"
  have 1: "fst (build_tfidf_index toy_sklearn no_charref reindex_db_before initial_index) = Inr 1"
    by code_simp
  have 2: "fst ?b = Inl ValueError" by code_simp
  have 3: "tfidf_rows (snd ?b) \<noteq> tfidf_rows reindex_snapshot" by code_simp
  have 4: "tfidf_vectorizer (snd ?b) \<noteq> tfidf_vectorizer reindex_snapshot" by code_simp
  have 5: "tfidf_matrix (snd ?b) = tfidf_matrix reindex_snapshot" by code_simp
  have 6: "last_index_count (snd ?b) = last_index_count reindex_snapshot" by code_simp
  from 3 have 7: "snd ?b \<noteq> reindex_snapshot" by auto
  from 1 2 3 4 5 6 7 show ?thesis by (simp add: reindex_snapshot_def)
qed

text \<open>
  C2, as the code has it. A rebuild that succeeds replaces vectorizer, matrix, rows list
  and count together: the new snapshot does not depend on the previous one. A rebuild
  whose vectorization raises has replaced the rows list and the vectorizer (by a new,
  unfitted one) and keeps the matrix and the count of the previous snapshot.
\<close>

theorem build_tfidf_index_outcome:
  assumes "build_tfidf_index L charref db st = (res, st')"
  shows "case res of
           Inr n \<Rightarrow> n = length (rows db) \<and> snapshot_ok st' \<and> last_index_count st' = n \<and>
                    st' = snd (build_tfidf_index L charref db st0)
         | Inl e \<Rightarrow> st' = st\<lparr>tfidf_rows := map doc_of (rows db), tfidf_vectorizer := Some Unfitted\<rparr>"
proof (cases "rows db = []")
  case True
  from build_empty [OF True, of L charref st] build_empty [OF True, of L charref st0] assms True
  show ?thesis by (auto simp: snapshot_ok_def)
next
  case False
  show ?thesis
  proof (cases "fit L (map (doc_text charref) (rows db))")
    case None
    from build_fail [OF False None, of st] assms show ?thesis by auto
  next
    case (Some v)
    from build_success [OF False Some, of st] build_success [OF False Some, of st0] assms False
    show ?thesis by (auto simp: snapshot_ok_def)
  qed
qed

theorem build_tfidf_index_outcome_witness:
  "fst (build_tfidf_index toy_sklearn no_charref reindex_db_after reindex_snapshot) = Inl ValueError \<and>
   snd (build_tfidf_index toy_sklearn no_charref reindex_db_after reindex_snapshot) =
     reindex_snapshot\<lparr>tfidf_rows := map doc_of (rows reindex_db_after),
                      tfidf_vectorizer := Some Unfitted\<rparr>"
proof -
  let ?b = "build_tfidf_index toy_sklearn no_charref reindex_db_after reindex_snapshot"
  have f: "fst ?b = Inl ValueError" by code_simp
  have "?b = (fst ?b, snd ?b)" by simp
  from build_tfidf_index_outcome [OF this] f show ?thesis by simp
qed

section \<open>Properties of the crawl engine\<close>

lemma crawl_step_visited:
  assumes "crawl_step bh charref W root st = r"
  shows "(case r of Inl (e, st') \<Rightarrow> cs_visited st' | Inr st' \<Rightarrow> cs_visited st') =
           (if hd (cs_queue st) \<in> set (cs_visited st) then cs_visited st
            else cs_visited st @ [hd (cs_queue st)])"
proof (cases "hd (cs_queue st) \<in> set (cs_visited st)")
  case True
  with assms show ?thesis by (auto simp: crawl_step_def Let_def)
next
  case False
  with assms show ?thesis
    by (auto simp: crawl_step_def Let_def fetch_page_visited split: sum.splits if_splits)
qed

definition within_budget :: "int \<Rightarrow> crawl_state \<Rightarrow> bool" where
  "within_budget max_pages st =
     (distinct (cs_visited st) \<and> int (length (cs_visited st)) \<le> max_pages)"

lemma crawl_step_within_budget:
  assumes r: "crawl_step bh charref W root st = r"
    and b: "within_budget max_pages st" and lt: "int (length (cs_visited st)) < max_pages"
  shows "within_budget max_pages (case r of Inl (e, st') \<Rightarrow> st' | Inr st' \<Rightarrow> st')"
proof -
  have "cs_visited (case r of Inl (e, st') \<Rightarrow> st' | Inr st' \<Rightarrow> st') =
          (case r of Inl (e, st') \<Rightarrow> cs_visited st' | Inr st' \<Rightarrow> cs_visited st')"
    by (simp split: sum.splits prod.splits)
  also note crawl_step_visited [OF r]
  finally show ?thesis
    using b lt by (auto simp: within_budget_def)
qed

lemma crawl_loop_stop:
  "\<not> (cs_queue st \<noteq> [] \<and> int (length (cs_visited st)) < max_pages \<and> \<not> w_stopped W (cs_turn st)) \<Longrightarrow>
     crawl_loop bh charref W root max_pages st = (None, st)"
  by (subst crawl_loop.simps) auto

lemma crawl_loop_fatal:
  "cs_queue st \<noteq> [] \<and> int (length (cs_visited st)) < max_pages \<and> \<not> w_stopped W (cs_turn st) \<Longrightarrow>
   crawl_step bh charref W root st = Inl (e, st') \<Longrightarrow>
     crawl_loop bh charref W root max_pages st = (Some e, st')"
  by (subst crawl_loop.simps) simp

lemma crawl_loop_continue:
  "cs_queue st \<noteq> [] \<and> int (length (cs_visited st)) < max_pages \<and> \<not> w_stopped W (cs_turn st) \<Longrightarrow>
   crawl_step bh charref W root st = Inr st' \<Longrightarrow>
     crawl_loop bh charref W root max_pages st = crawl_loop bh charref W root max_pages st'"
  by (subst crawl_loop.simps) simp

lemma crawl_loop_within_budget:
  "within_budget max_pages st \<Longrightarrow>
     within_budget max_pages (snd (crawl_loop bh charref W root max_pages st))"
proof (induction bh charref W root max_pages st rule: crawl_loop.induct)
  case (1 bh charref W root max_pages st)
  show ?case
  proof (cases "cs_queue st \<noteq> [] \<and> int (length (cs_visited st)) < max_pages \<and> \<not> w_stopped W (cs_turn st)")
    case False
    from crawl_loop_stop [OF False] "1.prems" show ?thesis by simp
  next
    case True
    then have lt: "int (length (cs_visited st)) < max_pages" by simp
    show ?thesis
    proof (cases "crawl_step bh charref W root st")
      case (Inl a)
      obtain e st' where a: "a = (e, st')" by (cases a)
      from crawl_step_within_budget [OF Inl "1.prems" lt] a
      have "within_budget max_pages st'" by simp
      with crawl_loop_fatal [OF True, of bh charref root e st'] Inl a show ?thesis
        by simp
    next
      case (Inr st')
      from crawl_step_within_budget [OF Inr "1.prems" lt]
      have "within_budget max_pages st'" by simp
      from "1.IH" [OF True Inr this] crawl_loop_continue [OF True Inr] show ?thesis
        by simp
    qed
  qed
qed

text \<open>
  C4. \<open>crawl_loop\<close> is a total function: for every world, every start url and every
  \<open>max_pages\<close> the loop ends. For \<open>max_pages \<ge> 0\<close> the job ends with \<open>running\<close> cleared
  and \<open>finished_at\<close> set, and the urls it visited are pairwise distinct and at most
  \<open>max_pages\<close>: none for 0, at most one for 1.
\<close>

theorem crawl_visits_within_budget:
  assumes "0 \<le> max_pages"
  shows "\<not> running (fst (background_scrape bh charref W prev db start_url max_pages)) \<and>
         finished_at (fst (background_scrape bh charref W prev db start_url max_pages)) \<noteq> None \<and>
         distinct (cs_visited (snd (background_scrape bh charref W prev db start_url max_pages))) \<and>
         int (length (cs_visited (snd (background_scrape bh charref W prev db start_url max_pages))))
           \<le> max_pages \<and>
         (max_pages = 0 \<longrightarrow>
            cs_visited (snd (background_scrape bh charref W prev db start_url max_pages)) = []) \<and>
         (max_pages = 1 \<longrightarrow>
            length (cs_visited (snd (background_scrape bh charref W prev db start_url max_pages))) \<le> 1)"
proof -
  let ?st0 = "initial_crawl prev db start_url"
  let ?loop = "crawl_loop bh charref W START_ROOT max_pages ?st0"
  have "within_budget max_pages ?st0"
    using assms by (simp add: within_budget_def initial_crawl_def)
  then have "within_budget max_pages (snd ?loop)"
    by (rule crawl_loop_within_budget)
  moreover have "snd (background_scrape bh charref W prev db start_url max_pages) = snd ?loop"
    by (simp add: background_scrape_def split: prod.splits)
  moreover have "\<not> running (fst (background_scrape bh charref W prev db start_url max_pages))"
    "finished_at (fst (background_scrape bh charref W prev db start_url max_pages)) \<noteq> None"
    by (simp_all add: background_scrape_def split: prod.splits)
  ultimately show ?thesis
    by (auto simp: within_budget_def)
qed

lemma lookalike_run:
  "cs_visited (snd (background_scrape no_brackets no_charref lookalike_web idle_job empty_store ''https://kiit.ac.in'' 1))
     = [''https://kiit.ac.in'']"
  by code_simp

theorem crawl_visits_within_budget_witness:
  "(0::int) \<le> 1 \<and>
   \<not> running (fst (background_scrape no_brackets no_charref lookalike_web idle_job empty_store
       ''https://kiit.ac.in'' 1)) \<and>
   cs_visited (snd (background_scrape no_brackets no_charref lookalike_web idle_job empty_store
       ''https://kiit.ac.in'' 1)) = [''https://kiit.ac.in''] \<and>
   cs_queue (snd (background_scrape no_brackets no_charref lookalike_web idle_job empty_store
       ''https://kiit.ac.in'' 1)) \<noteq> []"
proof -
  have q: "cs_queue (snd (background_scrape no_brackets no_charref lookalike_web idle_job empty_store
       ''https://kiit.ac.in'' 1)) \<noteq> []"
    by code_simp
  have h: "(0::int) \<le> 1" by simp
  from crawl_visits_within_budget [OF h, of no_brackets no_charref lookalike_web idle_job empty_store
      "''https://kiit.ac.in''"] lookalike_run q
  show ?thesis by simp
qed

text \<open>
  C1 at a failing input. The host \<open>evilkiit.ac.in\<close> is neither \<open>kiit.ac.in\<close> nor one of
  its subdomains, but its netloc ends with the characters of the root: the scope check
  accepts it. Crawling a start page that links to it visits the page and stores it.
\<close>

theorem lookalike_host_crawled:
  "urlparse no_brackets ''https://evilkiit.ac.in/'' [] =
     Inr \<lparr>p_scheme = ''https'', p_netloc = ''evilkiit.ac.in'', p_path = ''/'', p_params = [],
          p_query = [], p_fragment = []\<rparr> \<and>
   endswith ''evilkiit.ac.in'' START_ROOT \<and>
   cs_visited (snd (background_scrape no_brackets no_charref lookalike_web idle_job empty_store
       ''https://kiit.ac.in'' 150)) = [''https://kiit.ac.in'', ''https://evilkiit.ac.in/''] \<and>
   map pg_url (rows (cs_db (snd (background_scrape no_brackets no_charref lookalike_web idle_job
       empty_store ''https://kiit.ac.in'' 150)))) = [''https://kiit.ac.in'', ''https://evilkiit.ac.in/'']"
  by code_simp

text \<open>
  C6 at a failing input. A title of three spaces is not the empty string, so the fallback
  to the url is not taken; stripped, it is stored as the empty title.
\<close>

theorem blank_title_stored:
  "html_title ''https://kiit.ac.in'' (Some ''   '') = [] \<and>
   map pg_title (rows (cs_db (snd (background_scrape no_brackets no_charref blank_title_web idle_job
       empty_store ''https://kiit.ac.in'' 150)))) = [Some []]"
  by code_simp

text \<open>
  C9, as the spec states it (every non-blank query, every non-empty index, every
  \<open>top_n\<close>), fails twice. On the snapshot a failed rebuild leaves behind, the row count
  still matches, so nothing is rebuilt; rows, vectorizer and matrix are all present, and
  \<open>transform\<close> on the unfitted vectorizer raises: no result instead of one. And with
  \<open>top_n = -1\<close> the slice drops the last of three indices: two results, where
  \<open>min top_n m\<close> is negative.
\<close>

theorem retrieve_count_counterexample:
  "strip ''x'' \<noteq> [] \<and>
   length (rows reindex_db_after) = last_index_count halfbuilt_snapshot \<and>
   last_index_count halfbuilt_snapshot = 1 \<and>
   tfidf_vectorizer halfbuilt_snapshot = Some Unfitted \<and>
   tfidf_matrix halfbuilt_snapshot \<noteq> None \<and>
   tfidf_rows halfbuilt_snapshot \<noteq> [] \<and>
   fst (ensure_index_up_to_date toy_sklearn no_charref reindex_db_after halfbuilt_snapshot) = Inr 1 \<and>
   fst (retrieve_tfidf toy_sklearn no_charref reindex_db_after halfbuilt_snapshot ''x'' 5) =
     Inl NotFittedError \<and>
   map r_url (projr (fst (retrieve_tfidf toy_sklearn no_charref example_db initial_index ''x'' (- 1)))) =
     [''w'', ''u''] \<and>
   min (- 1) (int (length (rows example_db))) = - 1"
  by code_simp

end
